theory Spec2Isabelle
  imports Main "HOL-Library.Char_ord" "HOL-Library.List_Lexorder"
begin

section \<open>Python primitives used by \<open>examples/relation_classification/utils.py\<close>\<close>

text \<open>
  Python strings are sequences of code points; they are modelled as \<open>string\<close>, one
  \<open>char\<close> per code point, which covers the code points below 256. Python integers are
  \<open>int\<close>, and \<open>len\<close> is read as an \<open>int\<close>.
\<close>

definition py_len :: "'a list \<Rightarrow> int" where
  "py_len xs = int (length xs)"

text \<open>
  A slice bound as Python normalises it (step 1): a negative bound counts from the end,
  and the result is clamped to \<open>0 .. len\<close>.
\<close>

definition slice_bound :: "'a list \<Rightarrow> int \<Rightarrow> nat" where
  "slice_bound xs i =
     (if i < 0 then nat (max (i + py_len xs) 0) else nat (min i (py_len xs)))"

text \<open>\<open>xs[i:j]\<close>, \<open>xs[i:]\<close> and \<open>xs[:j]\<close>.\<close>

definition py_slice :: "'a list \<Rightarrow> int \<Rightarrow> int \<Rightarrow> 'a list" where
  "py_slice xs i j = take (slice_bound xs j - slice_bound xs i) (drop (slice_bound xs i) xs)"

definition py_slice_from :: "'a list \<Rightarrow> int \<Rightarrow> 'a list" where
  "py_slice_from xs i = drop (slice_bound xs i) xs"

definition py_slice_to :: "'a list \<Rightarrow> int \<Rightarrow> 'a list" where
  "py_slice_to xs j = take (slice_bound xs j) xs"

text \<open>\<open>sep.join(xs)\<close>.\<close>

fun join :: "string \<Rightarrow> string list \<Rightarrow> string" where
  "join sep [] = []"
| "join sep [x] = x"
| "join sep (x # y # ys) = x @ sep @ join sep (y # ys)"

text \<open>
  \<open>str.isspace\<close> on one character, for the code points below 256: TAB, LF, VT, FF, CR,
  the four separators FS, GS, RS, US, the space, NEL and the no-break space.
\<close>

definition py_isspace :: "char \<Rightarrow> bool" where
  "py_isspace c = (of_char c \<in> {9, 10, 11, 12, 13, 28, 29, 30, 31, 32, 133, 160 :: nat})"

text \<open>\<open>s.rstrip()\<close> without argument removes the trailing whitespace.\<close>

definition rstrip :: "string \<Rightarrow> string" where
  "rstrip s = rev (dropWhile py_isspace (rev s))"

text \<open>\<open>'%s' % n\<close> for a non-negative integer: its decimal digits.\<close>

definition digit_char :: "nat \<Rightarrow> char" where
  "digit_char d = ''0123456789'' ! d"

fun str_of_nat :: "nat \<Rightarrow> string" where
  "str_of_nat n = (if n < 10 then [digit_char n] else str_of_nat (n div 10) @ [digit_char (n mod 10)])"

text \<open>\<open>[x] * n\<close>: the empty list when \<open>n\<close> is not positive.\<close>

definition py_repeat :: "'a \<Rightarrow> int \<Rightarrow> 'a list" where
  "py_repeat x n = replicate (nat n) x"

text \<open>\<open>list(range(a, b))\<close>.\<close>

definition py_range :: "int \<Rightarrow> int \<Rightarrow> int list" where
  "py_range a b = [a ..b - 1]"


section \<open>Data model\<close>

text \<open>One object of the input JSON array, with the keys the code reads.\<close>

record item =
  token :: "string list"
  subj_start :: int
  subj_end :: int
  obj_start :: int
  obj_end :: int
  subj_type :: string
  obj_type :: string
  relation :: string

text \<open>Class \<open>InputExample\<close>; the fields \<open>id\<close> and \<open>text\<close> are \<open>ex_id\<close> and \<open>ex_text\<close> here.\<close>

record InputExample =
  ex_id :: string
  ex_text :: string
  span_a :: "int \<times> int"
  span_b :: "int \<times> int"
  type_a :: string
  type_b :: string
  label :: string

text \<open>The two keys of the dictionaries \<open>token_spans\<close> and \<open>char_spans\<close>.\<close>

datatype entity = Subj | Obj


section \<open>The example builder: \<open>DatasetProcessor._create_examples\<close>\<close>

definition item_token_spans :: "item \<Rightarrow> entity \<Rightarrow> int \<times> int" where
  "item_token_spans it e =
     (case e of Subj \<Rightarrow> (subj_start it, subj_end it + 1)
              | Obj \<Rightarrow> (obj_start it, obj_end it + 1))"

definition entity_order :: "item \<Rightarrow> entity list" where
  "entity_order it =
     (if fst (item_token_spans it Subj) < fst (item_token_spans it Obj)
      then [Subj, Obj] else [Obj, Subj])"

text \<open>The variables the loop over \<open>entity_order\<close> updates.\<close>

record builder_state =
  b_text :: string
  b_cur :: int
  char_spans :: "entity \<rightharpoonup> int \<times> int"

text \<open>One pass of the loop body (lines 74 to 81) for \<open>target_entity\<close>.\<close>

definition entity_step :: "item \<Rightarrow> entity \<Rightarrow> builder_state \<Rightarrow> builder_state" where
  "entity_step it target_entity st =
     (let token_span = item_token_spans it target_entity;
          text1 = b_text st @ join '' '' (py_slice (token it) (b_cur st) (fst token_span));
          text2 = (if text1 \<noteq> [] then text1 @ '' '' else text1);
          start = py_len text2;
          text3 = text2 @ join '' '' (py_slice (token it) (fst token_span) (snd token_span)) @ '' ''
      in \<lparr> b_text = text3, b_cur = snd token_span,
           char_spans = (char_spans st)(target_entity \<mapsto> (start, py_len text3)) \<rparr>)"

text \<open>
  The state after the loop. \<open>char_spans\<close> starts as two \<open>[None, None]\<close> entries in the
  source; both are assigned in the loop, since \<open>entity_order\<close> lists both keys.
\<close>

definition build_state :: "item \<Rightarrow> builder_state" where
  "build_state it =
     fold (entity_step it) (entity_order it) \<lparr> b_text = [], b_cur = 0, char_spans = Map.empty \<rparr>"

text \<open>The text before the final \<open>rstrip\<close> (line 82).\<close>

definition full_text :: "item \<Rightarrow> string" where
  "full_text it =
     (let st = build_state it in b_text st @ join '' '' (py_slice_from (token it) (b_cur st)))"

definition create_example :: "string \<Rightarrow> nat \<Rightarrow> item \<Rightarrow> InputExample" where
  "create_example set_type i it =
     (let st = build_state it
      in \<lparr> ex_id = set_type @ ''-'' @ str_of_nat i,
           ex_text = rstrip (full_text it),
           span_a = the (char_spans st Subj),
           span_b = the (char_spans st Obj),
           type_a = subj_type it,
           type_b = obj_type it,
           label = relation it \<rparr>)"

text \<open>The loop over the records of one split, already parsed from its JSON file.\<close>

definition create_examples :: "item list \<Rightarrow> string \<Rightarrow> InputExample list" where
  "create_examples data set_type =
     map (\<lambda>(i, it). create_example set_type i it) (enumerate 0 data)"


text \<open>
  Names for what the properties speak about: the text an entity contributes (the
  space-join of its token slice) and the character span recorded for it.
\<close>

definition entity_text :: "item \<Rightarrow> entity \<Rightarrow> string" where
  "entity_text it e =
     join '' '' (py_slice (token it) (fst (item_token_spans it e)) (snd (item_token_spans it e)))"

definition char_span :: "item \<Rightarrow> entity \<Rightarrow> int \<times> int" where
  "char_span it e = the (char_spans (build_state it) e)"

text \<open>
  The token spans of a record are in bounds when both inclusive ends index a token and
  the start does not exceed the end; they do not overlap when one ends before the other
  starts.
\<close>

definition in_bounds :: "item \<Rightarrow> bool" where
  "in_bounds it =
     (0 \<le> subj_start it \<and> subj_start it \<le> subj_end it \<and> subj_end it < py_len (token it)
      \<and> 0 \<le> obj_start it \<and> obj_start it \<le> obj_end it \<and> obj_end it < py_len (token it))"

definition non_overlapping :: "item \<Rightarrow> bool" where
  "non_overlapping it = (subj_end it < obj_start it \<or> obj_end it < subj_start it)"

text \<open>The last token has a last character, and \<open>rstrip\<close> would keep it.\<close>

definition last_token_visible :: "item \<Rightarrow> bool" where
  "last_token_visible it =
     (token it \<noteq> [] \<and> last (token it) \<noteq> [] \<and> \<not> py_isspace (last (last (token it))))"


section \<open>The label vocabulary: \<open>DatasetProcessor.get_label_list\<close>\<close>

text \<open>
  \<open>get_train_examples\<close> builds the examples of the training split; the argument is the
  content of \<open>train.json\<close>.
\<close>

definition get_train_examples :: "item list \<Rightarrow> InputExample list" where
  "get_train_examples data = create_examples data ''train''"

text \<open>
  The set \<open>labels\<close> is filled by the loop, loses \<open>no_relation\<close>, and is sorted;
  \<open>sorted\<close> on strings is the lexicographic order on code points, which is the order of
  \<open>char list\<close> here.
\<close>

definition get_label_list :: "item list \<Rightarrow> string list" where
  "get_label_list data =
     (let labels = fold (\<lambda>example labels. insert (label example) labels)
                     (get_train_examples data) {};
          labels = labels - {''no_relation''}
      in ''no_relation'' # sorted_list_of_set labels)"


section \<open>The feature encoder: \<open>convert_examples_to_features\<close>\<close>

definition ENTITY_TYPES :: "string list" where
  "ENTITY_TYPES =
     [''CAUSE_OF_DEATH'', ''CITY'', ''COUNTRY'', ''CRIMINAL_CHARGE'', ''DATE'', ''DURATION'',
      ''IDEOLOGY'', ''LOCATION'', ''MISC'', ''NATIONALITY'', ''NUMBER'', ''ORGANIZATION'',
      ''PERSON'', ''RELIGION'', ''STATE_OR_PROVINCE'', ''TITLE'', ''URL'']"

definition HEAD_TOKEN :: string where
  "HEAD_TOKEN = ''[HEAD]''"

definition TAIL_TOKEN :: string where
  "TAIL_TOKEN = ''[TAIL]''"

text \<open>Class \<open>InputFeatures\<close>; its field \<open>label\<close> is \<open>label_id\<close> here.\<close>

record InputFeatures =
  word_ids :: "int list"
  word_segment_ids :: "int list"
  word_attention_mask :: "int list"
  entity_ids :: "int list"
  entity_position_ids :: "int list list"
  entity_segment_ids :: "int list"
  entity_attention_mask :: "int list"
  label_id :: int

text \<open>
  The tokenizer is a parameter of the encoder. \<open>tok_tokenize\<close> takes the text and the
  value of \<open>add_prefix_space\<close>; \<open>is_roberta\<close> is the outcome of the \<open>isinstance\<close> test.
\<close>

record tokenizer =
  cls_token :: string
  sep_token :: string
  is_roberta :: bool
  tok_tokenize :: "string \<Rightarrow> bool \<Rightarrow> string list"
  convert_tokens_to_ids :: "string list \<Rightarrow> int list"

text \<open>The local function \<open>tokenize\<close>.\<close>

definition tokenize :: "tokenizer \<Rightarrow> string \<Rightarrow> string list" where
  "tokenize tk txt =
     (if is_roberta tk then tok_tokenize tk txt True else tok_tokenize tk txt False)"

text \<open>A missing dictionary key raises \<open>KeyError\<close> with the key.\<close>

datatype error = KeyError string

definition lookup :: "(string \<rightharpoonup> 'v) \<Rightarrow> string \<Rightarrow> error + 'v" where
  "lookup m k = (case m k of None \<Rightarrow> Inl (KeyError k) | Some v \<Rightarrow> Inr v)"

text \<open>A dictionary comprehension: a later pair replaces an earlier one with the same key.\<close>

definition dict_of :: "('k \<times> 'v) list \<Rightarrow> ('k \<rightharpoonup> 'v)" where
  "dict_of kvs = fold (\<lambda>(k, v) m. m(k \<mapsto> v)) kvs Map.empty"

definition label_map :: "string list \<Rightarrow> (string \<rightharpoonup> int)" where
  "label_map label_list = dict_of (map (\<lambda>(i, l). (l, int i)) (enumerate 0 label_list))"

definition type_map :: "string \<rightharpoonup> int" where
  "type_map = dict_of (map (\<lambda>(i, t). (t, int i + 1)) (enumerate 0 ENTITY_TYPES))"

text \<open>The attribute names \<open>'span_a'\<close> and \<open>'span_b'\<close>, and \<open>getattr\<close> on them.\<close>

datatype span_name = Span_a | Span_b

definition get_span :: "InputExample \<Rightarrow> span_name \<Rightarrow> int \<times> int" where
  "get_span example n = (case n of Span_a \<Rightarrow> span_a example | Span_b \<Rightarrow> span_b example)"

definition span_order :: "InputExample \<Rightarrow> span_name list" where
  "span_order example =
     (if snd (span_a example) < snd (span_b example)
      then [Span_a, Span_b] else [Span_b, Span_a])"

definition marker :: "span_name \<Rightarrow> string" where
  "marker n = (if n = Span_a then HEAD_TOKEN else TAIL_TOKEN)"

text \<open>The variables the loop over \<open>span_order\<close> updates.\<close>

record encoder_state =
  tokens :: "string list"
  cur :: int
  token_spans :: "span_name \<rightharpoonup> int \<times> int"

text \<open>One pass of the loop body (lines 114 to 123) for \<open>span_name\<close>.\<close>

definition span_step ::
  "tokenizer \<Rightarrow> bool \<Rightarrow> InputExample \<Rightarrow> span_name \<Rightarrow> encoder_state \<Rightarrow> encoder_state" where
  "span_step tk use_marker_token example n st =
     (let span = get_span example n;
          tokens1 = tokens st @ tokenize tk (py_slice (ex_text example) (cur st) (fst span));
          start = py_len tokens1;
          tokens2 = (if use_marker_token then tokens1 @ [marker n] else tokens1);
          tokens3 = tokens2 @ tokenize tk (py_slice (ex_text example) (fst span) (snd span));
          tokens4 = (if use_marker_token then tokens3 @ [marker n] else tokens3)
      in \<lparr> tokens = tokens4, cur = snd span,
           token_spans = (token_spans st)(n \<mapsto> (start, py_len tokens4)) \<rparr>)"

definition encode_state :: "tokenizer \<Rightarrow> bool \<Rightarrow> InputExample \<Rightarrow> encoder_state" where
  "encode_state tk use_marker_token example =
     fold (span_step tk use_marker_token example) (span_order example)
       \<lparr> tokens = [cls_token tk], cur = 0, token_spans = Map.empty \<rparr>"

text \<open>The token sequence after lines 125 and 126.\<close>

definition final_tokens :: "tokenizer \<Rightarrow> bool \<Rightarrow> InputExample \<Rightarrow> string list" where
  "final_tokens tk use_marker_token example =
     (let st = encode_state tk use_marker_token example
      in tokens st @ tokenize tk (py_slice_from (ex_text example) (cur st)) @ [sep_token tk])"

text \<open>
  The token range recorded for a span. Both keys of \<open>token_spans\<close> are assigned in the
  loop, since \<open>span_order\<close> lists both names.
\<close>

definition token_range :: "tokenizer \<Rightarrow> bool \<Rightarrow> InputExample \<Rightarrow> span_name \<Rightarrow> int \<times> int" where
  "token_range tk use_marker_token example n =
     the (token_spans (encode_state tk use_marker_token example) n)"

text \<open>Lines 140 and 141 for one span.\<close>

definition position_ids :: "int \<times> int \<Rightarrow> int \<Rightarrow> int list" where
  "position_ids span max_mention_length =
     py_slice_to (py_range (fst span) (snd span)) max_mention_length
       @ py_repeat (- 1) (max_mention_length - snd span + fst span)"

definition make_entity_ids :: "bool \<Rightarrow> InputExample \<Rightarrow> error + int list" where
  "make_entity_ids use_entity_type_token example =
     (if use_entity_type_token then
        (case lookup type_map (type_a example) of
           Inl e \<Rightarrow> Inl e
         | Inr a \<Rightarrow> (case lookup type_map (type_b example) of
                      Inl e \<Rightarrow> Inl e
                    | Inr b \<Rightarrow> Inr [a, b]))
      else Inr [1, 1])"

text \<open>The body of the loop over the examples (lines 105 to 156).\<close>

definition convert_example ::
  "string list \<Rightarrow> tokenizer \<Rightarrow> int \<Rightarrow> bool \<Rightarrow> bool \<Rightarrow> InputExample \<Rightarrow> error + InputFeatures" where
  "convert_example label_list tk max_mention_length use_entity_type_token use_marker_token example =
     (let toks = final_tokens tk use_marker_token example
      in case make_entity_ids use_entity_type_token example of
           Inl e \<Rightarrow> Inl e
         | Inr eids \<Rightarrow>
             (case lookup (label_map label_list) (label example) of
                Inl e \<Rightarrow> Inl e
              | Inr l \<Rightarrow>
                  Inr \<lparr> word_ids = convert_tokens_to_ids tk toks,
                        word_segment_ids = py_repeat 0 (py_len toks),
                        word_attention_mask = py_repeat 1 (py_len toks),
                        entity_ids = eids,
                        entity_position_ids =
                          map (\<lambda>n. position_ids (token_range tk use_marker_token example n)
                                     max_mention_length) [Span_a, Span_b],
                        entity_segment_ids = [0, 0],
                        entity_attention_mask = [1, 1],
                        label_id = l \<rparr>))"

text \<open>The loop over the examples: the first error ends it.\<close>

fun convert_all ::
  "string list \<Rightarrow> tokenizer \<Rightarrow> int \<Rightarrow> bool \<Rightarrow> bool \<Rightarrow> InputExample list
     \<Rightarrow> error + InputFeatures list" where
  "convert_all label_list tk m ut um [] = Inr []"
| "convert_all label_list tk m ut um (example # examples) =
     (case convert_example label_list tk m ut um example of
        Inl e \<Rightarrow> Inl e
      | Inr f \<Rightarrow> (case convert_all label_list tk m ut um examples of
                    Inl e \<Rightarrow> Inl e
                  | Inr fs \<Rightarrow> Inr (f # fs)))"

definition convert_examples_to_features ::
  "InputExample list \<Rightarrow> string list \<Rightarrow> tokenizer \<Rightarrow> int \<Rightarrow> bool \<Rightarrow> bool
     \<Rightarrow> error + InputFeatures list" where
  "convert_examples_to_features examples label_list tk max_mention_length
       use_entity_type_token use_marker_token =
     convert_all label_list tk max_mention_length use_entity_type_token use_marker_token examples"


text \<open>
  Names for what the properties speak about: the subword tokens of a span's text, the
  marker tokens the loop body appends around them, and the invariant the data model
  states for the spans of an example.
\<close>

definition span_tokens :: "tokenizer \<Rightarrow> InputExample \<Rightarrow> span_name \<Rightarrow> string list" where
  "span_tokens tk example n =
     tokenize tk (py_slice (ex_text example) (fst (get_span example n)) (snd (get_span example n)))"

definition markers :: "bool \<Rightarrow> span_name \<Rightarrow> string list" where
  "markers use_marker_token n = (if use_marker_token then [marker n] else [])"

definition spans_valid :: "InputExample \<Rightarrow> bool" where
  "spans_valid example =
     (fst (span_a example) < snd (span_a example) \<and> fst (span_b example) < snd (span_b example)
      \<and> (snd (span_a example) \<le> fst (span_b example) \<or> snd (span_b example) \<le> fst (span_a example)))"


section \<open>Concrete inputs\<close>

text \<open>The record of the specification's round-trip example.\<close>

definition john_item :: item where
  "john_item = \<lparr> token = [''John'', ''lives'', ''in'', ''Paris''],
                 subj_start = 0, subj_end = 0, obj_start = 3, obj_end = 3,
                 subj_type = ''PERSON'', obj_type = ''CITY'', relation = ''lives_in'' \<rparr>"

text \<open>A record whose two token spans start at the same token.\<close>

definition tie_item :: item where
  "tie_item = \<lparr> token = [''New'', ''York'', ''City''],
                subj_start = 0, subj_end = 1, obj_start = 0, obj_end = 2,
                subj_type = ''STATE_OR_PROVINCE'', obj_type = ''CITY'',
                relation = ''no_relation'' \<rparr>"

text \<open>
  A tokenizer for the concrete inputs: it splits at whitespace, and the id of a token is
  its length.
\<close>

fun split_acc :: "string \<Rightarrow> string \<Rightarrow> string list" where
  "split_acc w [] = (if w = [] then [] else [w])"
| "split_acc w (c # cs) =
     (if py_isspace c then (if w = [] then split_acc [] cs else w # split_acc [] cs)
      else split_acc (w @ [c]) cs)"

definition word_tokenizer :: tokenizer where
  "word_tokenizer =
     \<lparr> cls_token = ''[CLS]'', sep_token = ''[SEP]'', is_roberta = False,
       tok_tokenize = (\<lambda>txt add_prefix_space. split_acc [] txt),
       convert_tokens_to_ids = map py_len \<rparr>"

text \<open>The example the builder makes of the specification's record.\<close>

definition john_example :: InputExample where
  "john_example = create_example ''train'' 0 john_item"


text \<open>
  Two examples whose spans overlap: with equal starts, and with \<open>span_b\<close> inside
  \<open>span_a\<close>.
\<close>

definition same_start_example :: InputExample where
  "same_start_example =
     \<lparr> ex_id = ''dev-0'', ex_text = ''New York City'', span_a = (0, 14), span_b = (0, 9),
       type_a = ''CITY'', type_b = ''STATE_OR_PROVINCE'', label = ''no_relation'' \<rparr>"

definition nested_example :: InputExample where
  "nested_example =
     \<lparr> ex_id = ''dev-1'', ex_text = ''New York City'', span_a = (0, 14), span_b = (4, 9),
       type_a = ''CITY'', type_b = ''STATE_OR_PROVINCE'', label = ''no_relation'' \<rparr>"

text \<open>The example the builder makes of \<open>tie_item\<close>.\<close>

definition tie_example_built :: InputExample where
  "tie_example_built = create_example ''train'' 1 tie_item"


text \<open>A label vocabulary for \<open>john_example\<close>, and an example with an unlisted entity type.\<close>

definition john_labels :: "string list" where
  "john_labels = [''no_relation'', ''lives_in'']"

definition unknown_type_example :: InputExample where
  "unknown_type_example = john_example \<lparr> type_a := ''ANIMAL'' \<rparr>"


section \<open>Slices, joins and stripping\<close>

lemma slice_bound_nonneg: "0 \<le> i \<Longrightarrow> slice_bound xs i = min (nat i) (length xs)"
  by (auto simp: slice_bound_def py_len_def)

lemma slice_bound_len [simp]: "slice_bound xs (py_len xs) = length xs"
  by (simp add: slice_bound_def py_len_def)

lemma slice_bound_len_app [simp]: "slice_bound (xs @ ys) (py_len xs) = length xs"
  by (simp add: slice_bound_def py_len_def)

lemma slice_bound_ge: "py_len xs \<le> j \<Longrightarrow> slice_bound xs j = length xs"
  by (auto simp: slice_bound_def py_len_def)

lemma py_slice_middle: "py_slice (A @ X @ B) (py_len A) (py_len (A @ X)) = X"
proof -
  have "slice_bound (A @ X @ B) (py_len (A @ X)) = length A + length X"
    using slice_bound_len_app [of "A @ X" B] by simp
  then show ?thesis by (simp add: py_slice_def)
qed

lemma py_slice_clamped:
  assumes "py_len (A @ X) \<le> j"
  shows "py_slice (A @ X) (py_len A) j = X"
  using assms by (simp add: py_slice_def slice_bound_ge)

lemma entity_step_text:
  "\<exists>pre. b_text (entity_step it e st)
            = b_text st @ pre @ join '' '' (py_slice (token it) (fst (item_token_spans it e)) (snd (item_token_spans it e))) @ '' ''
        \<and> char_spans (entity_step it e st)
            = (char_spans st)(e \<mapsto> (py_len (b_text st @ pre), py_len (b_text (entity_step it e st))))
        \<and> b_cur (entity_step it e st) = snd (item_token_spans it e)"
proof -
  let ?ts = "item_token_spans it e"
  let ?j = "join '' '' (py_slice (token it) (b_cur st) (fst ?ts))"
  show ?thesis
  proof (cases "b_text st @ ?j = []")
    case True
    then show ?thesis
      by (intro exI [of _ "[]"]) (simp add: entity_step_def Let_def)
  next
    case False
    then show ?thesis
      by (intro exI [of _ "?j @ '' ''"]) (simp add: entity_step_def Let_def)
  qed
qed


lemma entity_step_shape:
  "\<exists>pre. b_text (entity_step it e st) = b_text st @ pre @ entity_text it e @ '' ''
        \<and> char_spans (entity_step it e st)
            = (char_spans st)(e \<mapsto> (py_len (b_text st @ pre), py_len (b_text (entity_step it e st))))
        \<and> b_cur (entity_step it e st) = snd (item_token_spans it e)"
  unfolding entity_text_def by (rule entity_step_text)

lemma entity_order_cases:
  "entity_order it = [Subj, Obj] \<and> subj_start it < obj_start it
   \<or> entity_order it = [Obj, Subj] \<and> obj_start it \<le> subj_start it"
  by (auto simp: entity_order_def item_token_spans_def)

lemma build_state_shape:
  assumes "entity_order it = [e1, e2]"
  shows "\<exists>pre1 pre2.
           b_text (build_state it) = pre1 @ entity_text it e1 @ '' '' @ pre2 @ entity_text it e2 @ '' ''
         \<and> char_spans (build_state it) e1
             = Some (py_len pre1, py_len (pre1 @ entity_text it e1 @ '' ''))
         \<and> char_spans (build_state it) e2
             = Some (py_len (pre1 @ entity_text it e1 @ '' '' @ pre2),
                     py_len (pre1 @ entity_text it e1 @ '' '' @ pre2 @ entity_text it e2 @ '' ''))
         \<and> b_cur (build_state it) = snd (item_token_spans it e2)"
proof -
  let ?s0 = "\<lparr> b_text = [], b_cur = 0, char_spans = Map.empty \<rparr>"
  let ?s1 = "entity_step it e1 ?s0"
  let ?s2 = "entity_step it e2 ?s1"
  have ne: "e1 \<noteq> e2"
    using assms entity_order_cases [of it] by auto
  have bs: "build_state it = ?s2"
    by (simp add: build_state_def assms)
  obtain pre1 where t1: "b_text ?s1 = pre1 @ entity_text it e1 @ '' ''"
    and c1: "char_spans ?s1 = (char_spans ?s0)(e1 \<mapsto> (py_len (b_text ?s0 @ pre1), py_len (b_text ?s1)))"
    using entity_step_shape [of it e1 ?s0] by auto
  obtain pre2 where t2: "b_text ?s2 = b_text ?s1 @ pre2 @ entity_text it e2 @ '' ''"
    and c2: "char_spans ?s2 = (char_spans ?s1)(e2 \<mapsto> (py_len (b_text ?s1 @ pre2), py_len (b_text ?s2)))"
    and k2: "b_cur ?s2 = snd (item_token_spans it e2)"
    using entity_step_shape [of it e2 ?s1] by auto
  have a: "b_text ?s2 = pre1 @ entity_text it e1 @ '' '' @ pre2 @ entity_text it e2 @ '' ''"
    using t1 t2 by simp
  have b: "char_spans ?s2 e1 = Some (py_len pre1, py_len (pre1 @ entity_text it e1 @ '' ''))"
    using ne c1 t1 by (simp add: c2)
  have c: "char_spans ?s2 e2 = Some (py_len (pre1 @ entity_text it e1 @ '' '' @ pre2),
             py_len (pre1 @ entity_text it e1 @ '' '' @ pre2 @ entity_text it e2 @ '' ''))"
    using t1 a by (simp add: c2)
  show ?thesis
    unfolding bs using a b c k2 by blast
qed


lemma entity_cases: "entity_order it = [Subj, Obj] \<or> entity_order it = [Obj, Subj]"
  by (simp add: entity_order_def)

lemma char_spans_dom: "char_spans (build_state it) e \<noteq> None"
  using entity_cases [of it] build_state_shape [of it]
  by (cases e) fastforce+

lemma char_span_ordered:
  assumes "entity_order it = [e1, e2]"
  shows "fst (char_span it e1) < snd (char_span it e1)
       \<and> snd (char_span it e1) \<le> fst (char_span it e2)
       \<and> fst (char_span it e2) < snd (char_span it e2)"
  using build_state_shape [OF assms] by (auto simp: char_span_def py_len_def)

lemma full_text_slice:
  "py_slice (full_text it) (fst (char_span it e)) (snd (char_span it e)) = entity_text it e @ '' ''"
proof -
  obtain e1 e2 where ord: "entity_order it = [e1, e2]" and e: "e = e1 \<or> e = e2"
    using entity_cases [of it] by (cases e) auto
  let ?J1 = "entity_text it e1 @ '' ''" and ?J2 = "entity_text it e2 @ '' ''"
  let ?rest = "join '' '' (py_slice_from (token it) (b_cur (build_state it)))"
  obtain pre1 pre2 where
    t: "b_text (build_state it) = pre1 @ entity_text it e1 @ '' '' @ pre2 @ entity_text it e2 @ '' ''"
    and c1: "char_span it e1 = (py_len pre1, py_len (pre1 @ ?J1))"
    and c2: "char_span it e2 = (py_len (pre1 @ entity_text it e1 @ '' '' @ pre2),
                 py_len ((pre1 @ entity_text it e1 @ '' '' @ pre2) @ ?J2))"
    using build_state_shape [OF ord] by (auto simp: char_span_def)
  have f1: "full_text it = pre1 @ ?J1 @ (pre2 @ ?J2 @ ?rest)"
    by (simp add: full_text_def t)
  have f2: "full_text it = (pre1 @ entity_text it e1 @ '' '' @ pre2) @ ?J2 @ ?rest"
    by (simp add: full_text_def t)
  have s1: "py_slice (full_text it) (fst (char_span it e1)) (snd (char_span it e1)) = ?J1"
    by (simp only: f1 c1 fst_conv snd_conv py_slice_middle)
  have s2: "py_slice (full_text it) (fst (char_span it e2)) (snd (char_span it e2)) = ?J2"
    by (simp only: f2 c2 fst_conv snd_conv py_slice_middle)
  from e s1 s2 show ?thesis by auto
qed


lemma space_isspace: "py_isspace CHR '' ''"
  by (simp add: py_isspace_def)

lemma rstrip_keep: "s \<noteq> [] \<Longrightarrow> \<not> py_isspace (last s) \<Longrightarrow> rstrip s = s"
  by (cases s rule: rev_cases) (simp_all add: rstrip_def)

lemma rstrip_space: "Y \<noteq> [] \<Longrightarrow> \<not> py_isspace (last Y) \<Longrightarrow> rstrip (X @ Y @ '' '') = X @ Y"
  by (cases Y rule: rev_cases) (simp_all add: rstrip_def space_isspace)

lemma join_last:
  "xs \<noteq> [] \<Longrightarrow> last xs \<noteq> [] \<Longrightarrow> join sep xs \<noteq> [] \<and> last (join sep xs) = last (last xs)"
  by (induction sep xs rule: join.induct) auto

lemma py_slice_from_nat: "0 \<le> i \<Longrightarrow> py_slice_from xs i = drop (nat i) xs"
  by (auto simp: py_slice_from_def slice_bound_def py_len_def min_def)

lemma py_slice_to_end:
  "0 \<le> i \<Longrightarrow> j = py_len xs \<Longrightarrow> py_slice xs i j = drop (nat i) xs"
  by (auto simp: py_slice_def slice_bound_def py_len_def min_def)

lemma final_text_slice:
  assumes ib: "in_bounds it" and no: "non_overlapping it" and lt: "last_token_visible it"
  shows "py_slice (rstrip (full_text it)) (fst (char_span it e)) (snd (char_span it e))
           = entity_text it e
             @ (if snd (item_token_spans it e) = py_len (token it) then [] else '' '')"
proof -
  obtain e1 e2 where ord: "entity_order it = [e1, e2]" and e: "e = e1 \<or> e = e2"
    using entity_cases [of it] by (cases e) auto
  let ?n = "py_len (token it)"
  let ?ts1 = "item_token_spans it e1" and ?ts2 = "item_token_spans it e2"
  have ar: "snd ?ts1 \<le> fst ?ts2 \<and> 0 \<le> fst ?ts2 \<and> fst ?ts2 < snd ?ts2 \<and> snd ?ts2 \<le> ?n"
    using ord entity_order_cases [of it] ib no
    by (auto simp: in_bounds_def non_overlapping_def item_token_spans_def)
  let ?J1 = "entity_text it e1 @ '' ''" and ?J2 = "entity_text it e2 @ '' ''"
  let ?rest = "join '' '' (py_slice_from (token it) (b_cur (build_state it)))"
  obtain pre1 pre2 where
    t: "b_text (build_state it) = pre1 @ entity_text it e1 @ '' '' @ pre2 @ entity_text it e2 @ '' ''"
    and c1: "char_span it e1 = (py_len pre1, py_len (pre1 @ ?J1))"
    and c2: "char_span it e2 = (py_len (pre1 @ entity_text it e1 @ '' '' @ pre2),
                 py_len ((pre1 @ entity_text it e1 @ '' '' @ pre2) @ ?J2))"
    and k: "b_cur (build_state it) = snd ?ts2"
    using build_state_shape [OF ord] by (auto simp: char_span_def)
  have ne1: "snd ?ts1 \<noteq> ?n" using ar by linarith
  have lastdrop: "\<And>i. 0 \<le> i \<Longrightarrow> i < ?n \<Longrightarrow>
      join '' '' (drop (nat i) (token it)) \<noteq> []
      \<and> \<not> py_isspace (last (join '' '' (drop (nat i) (token it))))"
  proof -
    fix i :: int assume i: "0 \<le> i" "i < ?n"
    then have d: "drop (nat i) (token it) \<noteq> []" by (simp add: py_len_def)
    then have "last (drop (nat i) (token it)) = last (token it)" by simp
    then show "join '' '' (drop (nat i) (token it)) \<noteq> []
      \<and> \<not> py_isspace (last (join '' '' (drop (nat i) (token it))))"
      using join_last [OF d, of "'' ''"] lt by (simp add: last_token_visible_def)
  qed
  show ?thesis
  proof (cases "snd ?ts2 = ?n")
    case True
    have r: "?rest = []"
      using ar True by (simp add: k py_slice_from_nat py_len_def)
    have j2: "entity_text it e2 = join '' '' (drop (nat (fst ?ts2)) (token it))"
      using ar True by (simp add: entity_text_def py_slice_to_end)
    have vis: "entity_text it e2 \<noteq> [] \<and> \<not> py_isspace (last (entity_text it e2))"
      unfolding j2 using lastdrop [of "fst ?ts2"] ar by simp
    have ft: "full_text it = (pre1 @ entity_text it e1 @ '' '' @ pre2) @ entity_text it e2 @ '' ''"
      by (simp add: full_text_def t r)
    have rs: "rstrip (full_text it) = (pre1 @ entity_text it e1 @ '' '' @ pre2) @ entity_text it e2"
      unfolding ft using vis by (intro rstrip_space) simp_all
    have rs1: "rstrip (full_text it) = pre1 @ ?J1 @ (pre2 @ entity_text it e2)"
      by (simp add: rs)
    have s1: "py_slice (rstrip (full_text it)) (fst (char_span it e1)) (snd (char_span it e1)) = ?J1"
      by (simp only: rs1 c1 fst_conv snd_conv py_slice_middle)
    have s2: "py_slice (rstrip (full_text it)) (fst (char_span it e2)) (snd (char_span it e2))
                = entity_text it e2"
      unfolding rs c2 fst_conv snd_conv
      by (rule py_slice_clamped) (simp add: py_len_def)
    from e s1 s2 ne1 True show ?thesis by auto
  next
    case False
    then have lt2: "snd ?ts2 < ?n" using ar by linarith
    have r: "?rest = join '' '' (drop (nat (snd ?ts2)) (token it))"
      using ar by (simp add: k py_slice_from_nat)
    have vis: "?rest \<noteq> [] \<and> \<not> py_isspace (last ?rest)"
      unfolding r using lastdrop [of "snd ?ts2"] ar lt2 by simp
    have ft: "full_text it = b_text (build_state it) @ ?rest"
      by (simp add: full_text_def Let_def)
    have ne: "full_text it \<noteq> []" and la: "last (full_text it) = last ?rest"
      using vis by (simp_all add: ft)
    have rs: "rstrip (full_text it) = full_text it"
      using ne la vis by (intro rstrip_keep) simp_all
    from e ne1 False show ?thesis
      unfolding rs using full_text_slice [of it e] by auto
  qed
qed


section \<open>The builder on the concrete inputs\<close>

lemma span_a_char_span: "span_a (create_example set_type i it) = char_span it Subj"
  by (simp add: create_example_def char_span_def Let_def)

lemma span_b_char_span: "span_b (create_example set_type i it) = char_span it Obj"
  by (simp add: create_example_def char_span_def Let_def)

lemma ex_text_rstrip: "ex_text (create_example set_type i it) = rstrip (full_text it)"
  by (simp add: create_example_def Let_def)

lemma john_build_state:
  "build_state john_item =
     \<lparr> b_text = ''John lives in Paris '', b_cur = 4,
       char_spans = [Subj \<mapsto> (0, 5), Obj \<mapsto> (14, 20)] \<rparr>"
  by (simp add: build_state_def entity_order_def entity_step_def item_token_spans_def
      john_item_def py_slice_def slice_bound_def py_len_def Let_def)

lemma john_create_example:
  "create_example set_type i john_item =
     \<lparr> ex_id = set_type @ ''-'' @ str_of_nat i, ex_text = ''John lives in Paris'',
       span_a = (0, 5), span_b = (14, 20), type_a = ''PERSON'', type_b = ''CITY'',
       label = ''lives_in'' \<rparr>"
  by (simp add: create_example_def full_text_def john_build_state Let_def
      py_slice_from_def slice_bound_def py_len_def rstrip_def py_isspace_def)
    (simp add: john_item_def py_isspace_def)

lemma tie_build_state:
  "build_state tie_item =
     \<lparr> b_text = ''New York City  New York '', b_cur = 2,
       char_spans = [Obj \<mapsto> (0, 14), Subj \<mapsto> (15, 24)] \<rparr>"
  by (simp add: build_state_def entity_order_def entity_step_def item_token_spans_def
      tie_item_def py_slice_def slice_bound_def py_len_def Let_def)

lemma tie_create_example:
  "create_example set_type i tie_item =
     \<lparr> ex_id = set_type @ ''-'' @ str_of_nat i, ex_text = ''New York City  New York City'',
       span_a = (15, 24), span_b = (0, 14), type_a = ''STATE_OR_PROVINCE'', type_b = ''CITY'',
       label = ''no_relation'' \<rparr>"
  by (simp add: create_example_def full_text_def tie_build_state Let_def
      py_slice_from_def slice_bound_def py_len_def rstrip_def py_isspace_def)
    (simp add: tie_item_def py_isspace_def)


lemma john_valid: "in_bounds john_item \<and> non_overlapping john_item \<and> last_token_visible john_item"
  by (simp add: in_bounds_def non_overlapping_def last_token_visible_def john_item_def
      py_len_def py_isspace_def)

lemma subj_text: "entity_text it Subj = join '' '' (py_slice (token it) (subj_start it) (subj_end it + 1))"
  by (simp add: entity_text_def item_token_spans_def)

lemma obj_text: "entity_text it Obj = join '' '' (py_slice (token it) (obj_start it) (obj_end it + 1))"
  by (simp add: entity_text_def item_token_spans_def)

section \<open>Properties of the example builder\<close>

text \<open>
  Claim C1. For the record with tokens John, lives, in, Paris, subj span \<open>(0,0)\<close> and obj
  span \<open>(3,3)\<close>, the claim gives the text \<open>John lives in Paris\<close> with \<open>span_a = (0,4)\<close>
  and \<open>span_b = (15,20)\<close>. The builder records each start before the entity text and
  each end after the space that follows it, so these spans are not the recorded ones.
\<close>

theorem C1_counterexample:
  "\<not> (ex_text (create_example ''train'' 0 john_item) = ''John lives in Paris''
      \<and> span_a (create_example ''train'' 0 john_item) = (0, 4)
      \<and> span_b (create_example ''train'' 0 john_item) = (15, 20))"
  by (simp add: john_create_example)

text \<open>
  Claim C1, amended. For that record the builder produces the text
  \<open>John lives in Paris\<close>, \<open>span_a = (0,5)\<close> and \<open>span_b = (14,20)\<close>.
\<close>

theorem C1_john_example:
  "ex_text (create_example set_type i john_item) = ''John lives in Paris''
   \<and> span_a (create_example set_type i john_item) = (0, 5)
   \<and> span_b (create_example set_type i john_item) = (14, 20)"
  by (simp add: john_create_example)

text \<open>
  Claim C2. For a record with in-bounds, non-overlapping spans, the claim equates the
  slice of the rebuilt text at the recorded offsets of \<open>span_a\<close> (\<open>span_b\<close>) with the
  space-join of the subject (object) tokens. At the record of the specification's example
  the slice for \<open>span_a\<close> is the join followed by a space.
\<close>

theorem C2_counterexample:
  "in_bounds john_item \<and> non_overlapping john_item
   \<and> py_slice (ex_text (create_example ''train'' 0 john_item))
        (fst (span_a (create_example ''train'' 0 john_item)))
        (snd (span_a (create_example ''train'' 0 john_item)))
       \<noteq> join '' '' (py_slice (token john_item) (subj_start john_item) (subj_end john_item + 1))
   \<and> py_slice (ex_text (create_example ''train'' 0 john_item))
        (fst (span_a (create_example ''train'' 0 john_item)))
        (snd (span_a (create_example ''train'' 0 john_item))) = ''John ''
   \<and> join '' '' (py_slice (token john_item) (subj_start john_item) (subj_end john_item + 1))
        = ''John''"
  using john_valid
  by (simp add: john_create_example py_slice_def slice_bound_def py_len_def)
    (simp add: john_item_def)

text \<open>
  Claim C2, amended. The text as it is before the final \<open>rstrip\<close>, sliced at the recorded
  offsets of \<open>span_a\<close> (\<open>span_b\<close>), is the space-join of the subject (object) tokens
  followed by one space, and the rebuilt text is that text stripped. When the last token
  is non-empty and does not end in whitespace, the slice of the rebuilt text itself is the
  space-join followed by one space, except for an entity that ends at the last token,
  whose slice is exactly the space-join.
\<close>

theorem C2_span_slices:
  assumes "in_bounds it" and "non_overlapping it"
    and "ex = create_example set_type i it"
  shows "py_slice (full_text it) (fst (span_a ex)) (snd (span_a ex))
           = join '' '' (py_slice (token it) (subj_start it) (subj_end it + 1)) @ '' ''
       \<and> py_slice (full_text it) (fst (span_b ex)) (snd (span_b ex))
           = join '' '' (py_slice (token it) (obj_start it) (obj_end it + 1)) @ '' ''
       \<and> ex_text ex = rstrip (full_text it)
       \<and> (last_token_visible it \<longrightarrow>
            py_slice (ex_text ex) (fst (span_a ex)) (snd (span_a ex))
              = join '' '' (py_slice (token it) (subj_start it) (subj_end it + 1))
                @ (if subj_end it + 1 = py_len (token it) then [] else '' '')
          \<and> py_slice (ex_text ex) (fst (span_b ex)) (snd (span_b ex))
              = join '' '' (py_slice (token it) (obj_start it) (obj_end it + 1))
                @ (if obj_end it + 1 = py_len (token it) then [] else '' ''))"
proof -
  have a: "py_slice (full_text it) (fst (span_a ex)) (snd (span_a ex))
           = join '' '' (py_slice (token it) (subj_start it) (subj_end it + 1)) @ '' ''"
    using full_text_slice [of it Subj] by (simp add: assms(3) span_a_char_span subj_text)
  have b: "py_slice (full_text it) (fst (span_b ex)) (snd (span_b ex))
           = join '' '' (py_slice (token it) (obj_start it) (obj_end it + 1)) @ '' ''"
    using full_text_slice [of it Obj] by (simp add: assms(3) span_b_char_span obj_text)
  have c: "ex_text ex = rstrip (full_text it)"
    by (simp add: assms(3) ex_text_rstrip)
  have d: "py_slice (ex_text ex) (fst (span_a ex)) (snd (span_a ex))
              = join '' '' (py_slice (token it) (subj_start it) (subj_end it + 1))
                @ (if subj_end it + 1 = py_len (token it) then [] else '' '')"
    if "last_token_visible it"
    using final_text_slice [OF assms(1,2) that, of Subj]
    by (simp add: assms(3) span_a_char_span ex_text_rstrip subj_text item_token_spans_def)
  have e: "py_slice (ex_text ex) (fst (span_b ex)) (snd (span_b ex))
              = join '' '' (py_slice (token it) (obj_start it) (obj_end it + 1))
                @ (if obj_end it + 1 = py_len (token it) then [] else '' '')"
    if "last_token_visible it"
    using final_text_slice [OF assms(1,2) that, of Obj]
    by (simp add: assms(3) span_b_char_span ex_text_rstrip obj_text item_token_spans_def)
  from a b c d e show ?thesis by blast
qed

theorem C2_span_slices_witness:
  "in_bounds john_item \<and> non_overlapping john_item \<and> last_token_visible john_item
   \<and> py_slice (full_text john_item) 0 5 = ''John ''
   \<and> py_slice (full_text john_item) 14 20 = ''Paris ''
   \<and> py_slice ''John lives in Paris'' 0 5 = ''John ''
   \<and> py_slice ''John lives in Paris'' 14 20 = ''Paris''"
proof -
  have v: "in_bounds john_item" "non_overlapping john_item" "last_token_visible john_item"
    using john_valid by simp_all
  have f: "token john_item = [''John'', ''lives'', ''in'', ''Paris'']"
      "subj_start john_item = 0" "subj_end john_item = 0"
      "obj_start john_item = 3" "obj_end john_item = 3"
    by (simp_all add: john_item_def)
  have r: "rstrip (full_text john_item) = ''John lives in Paris''"
    using john_create_example [of "''train''" 0] by (simp add: create_example_def Let_def)
  have e: "span_a (create_example ''train'' 0 john_item) = (0, 5)"
      "span_b (create_example ''train'' 0 john_item) = (14, 20)"
      "ex_text (create_example ''train'' 0 john_item) = ''John lives in Paris''"
    by (simp_all add: john_create_example)
  show ?thesis
    using C2_span_slices [OF v(1,2) refl, of "''train''" 0] v
    unfolding e r f fst_conv snd_conv
    by (simp add: py_slice_def slice_bound_def py_len_def)
qed

text \<open>
  Claim C3. The claim places the subj entity first when the two token spans start at
  the same token. The test of the builder is a strict \<open><\<close> on the starts with obj first
  in the other branch, so on a tie the obj entity comes first.
\<close>

theorem C3_counterexample:
  "subj_start tie_item = obj_start tie_item
   \<and> entity_order tie_item = [Obj, Subj]
   \<and> ex_text (create_example ''train'' 0 tie_item) = ''New York City  New York City''
   \<and> span_b (create_example ''train'' 0 tie_item) = (0, 14)
   \<and> span_a (create_example ''train'' 0 tie_item) = (15, 24)"
  by (simp add: tie_create_example) (simp add: tie_item_def entity_order_def item_token_spans_def)

text \<open>
  Claim C3, amended. When the subj span starts before the obj span, the subj entity is
  placed first in the rebuilt text; otherwise, also when the two starts are equal, the
  obj entity is placed first.
\<close>

theorem C3_entity_order:
  "(subj_start it < obj_start it \<longrightarrow>
      entity_order it = [Subj, Obj]
      \<and> fst (span_a (create_example set_type i it)) < fst (span_b (create_example set_type i it)))
   \<and> (obj_start it \<le> subj_start it \<longrightarrow>
      entity_order it = [Obj, Subj]
      \<and> fst (span_b (create_example set_type i it)) < fst (span_a (create_example set_type i it)))"
proof -
  have o: "entity_order it = [e1, e2] \<Longrightarrow> fst (char_span it e1) < fst (char_span it e2)" for e1 e2
    using char_span_ordered [of it e1 e2] by linarith
  show ?thesis
    using entity_order_cases [of it] o [of Subj Obj] o [of Obj Subj]
    by (auto simp: span_a_char_span span_b_char_span)
qed

theorem C3_entity_order_witness:
  "(subj_start john_item < obj_start john_item
     \<and> entity_order john_item = [Subj, Obj]
     \<and> fst (span_a (create_example ''train'' 0 john_item))
         < fst (span_b (create_example ''train'' 0 john_item)))
   \<and> (obj_start tie_item \<le> subj_start tie_item
     \<and> entity_order tie_item = [Obj, Subj]
     \<and> fst (span_b (create_example ''train'' 0 tie_item))
         < fst (span_a (create_example ''train'' 0 tie_item)))"
proof -
  have j: "subj_start john_item < obj_start john_item" by (simp add: john_item_def)
  have t: "obj_start tie_item \<le> subj_start tie_item" by (simp add: tie_item_def)
  show ?thesis
    using C3_entity_order [of john_item "''train''" 0] C3_entity_order [of tie_item "''train''" 0] j t
    by simp
qed

text \<open>
  Claim C8. Every example built from a record with in-bounds, non-overlapping token
  spans has character spans with end strictly greater than start, and the two half-open
  character ranges do not overlap.
\<close>

theorem C8_span_invariant:
  assumes "in_bounds it" and "non_overlapping it" and "ex = create_example set_type i it"
  shows "fst (span_a ex) < snd (span_a ex) \<and> fst (span_b ex) < snd (span_b ex)
       \<and> (snd (span_a ex) \<le> fst (span_b ex) \<or> snd (span_b ex) \<le> fst (span_a ex))"
  using entity_cases [of it] char_span_ordered [of it Subj Obj] char_span_ordered [of it Obj Subj]
  by (auto simp: assms(3) span_a_char_span span_b_char_span)

theorem C8_span_invariant_witness:
  "in_bounds john_item \<and> non_overlapping john_item
   \<and> span_a (create_example ''train'' 0 john_item) = (0, 5)
   \<and> span_b (create_example ''train'' 0 john_item) = (14, 20)
   \<and> (0::int) < 5 \<and> (14::int) < 20 \<and> ((5::int) \<le> 14 \<or> (20::int) \<le> 0)"
proof -
  have v: "in_bounds john_item" "non_overlapping john_item"
    using john_valid by simp_all
  show ?thesis
    using C8_span_invariant [OF v refl, of "''train''" 0] v
    by (simp add: john_create_example)
qed

section \<open>The shape of the token sequence\<close>

lemma span_step_shape:
  "\<exists>pre. tokens (span_step tk um ex n st)
            = tokens st @ pre @ markers um n @ span_tokens tk ex n @ markers um n
        \<and> token_spans (span_step tk um ex n st)
            = (token_spans st)(n \<mapsto> (py_len (tokens st @ pre), py_len (tokens (span_step tk um ex n st))))
        \<and> cur (span_step tk um ex n st) = snd (get_span ex n)"
  by (rule exI [of _ "tokenize tk (py_slice (ex_text ex) (cur st) (fst (get_span ex n)))"])
    (simp add: span_step_def span_tokens_def markers_def Let_def)

lemma span_order_cases:
  "span_order ex = [Span_a, Span_b] \<and> snd (span_a ex) < snd (span_b ex)
   \<or> span_order ex = [Span_b, Span_a] \<and> snd (span_b ex) \<le> snd (span_a ex)"
  by (auto simp: span_order_def)

lemma encode_state_shape:
  assumes "span_order ex = [n1, n2]"
  shows "\<exists>pre1 pre2.
           tokens (encode_state tk um ex)
             = (cls_token tk # pre1) @ (markers um n1 @ span_tokens tk ex n1 @ markers um n1)
               @ pre2 @ (markers um n2 @ span_tokens tk ex n2 @ markers um n2)
         \<and> token_spans (encode_state tk um ex) n1
             = Some (py_len (cls_token tk # pre1),
                     py_len ((cls_token tk # pre1) @ (markers um n1 @ span_tokens tk ex n1 @ markers um n1)))
         \<and> token_spans (encode_state tk um ex) n2
             = Some (py_len ((cls_token tk # pre1) @ (markers um n1 @ span_tokens tk ex n1 @ markers um n1) @ pre2),
                     py_len ((cls_token tk # pre1) @ (markers um n1 @ span_tokens tk ex n1 @ markers um n1)
                             @ pre2 @ (markers um n2 @ span_tokens tk ex n2 @ markers um n2)))"
proof -
  let ?s0 = "\<lparr> tokens = [cls_token tk], cur = 0, token_spans = Map.empty \<rparr>"
  let ?s1 = "span_step tk um ex n1 ?s0"
  let ?s2 = "span_step tk um ex n2 ?s1"
  let ?E1 = "markers um n1 @ span_tokens tk ex n1 @ markers um n1"
  let ?E2 = "markers um n2 @ span_tokens tk ex n2 @ markers um n2"
  have ne: "n1 \<noteq> n2"
    using assms span_order_cases [of ex] by auto
  have es: "encode_state tk um ex = ?s2"
    by (simp add: encode_state_def assms)
  obtain pre1 where t1: "tokens ?s1 = (cls_token tk # pre1) @ ?E1"
    and c1: "token_spans ?s1 = (token_spans ?s0)(n1 \<mapsto> (py_len (tokens ?s0 @ pre1), py_len (tokens ?s1)))"
    using span_step_shape [of tk um ex n1 ?s0] by auto
  obtain pre2 where t2: "tokens ?s2 = tokens ?s1 @ pre2 @ ?E2"
    and c2: "token_spans ?s2 = (token_spans ?s1)(n2 \<mapsto> (py_len (tokens ?s1 @ pre2), py_len (tokens ?s2)))"
    using span_step_shape [of tk um ex n2 ?s1] by auto
  have a: "tokens ?s2 = (cls_token tk # pre1) @ ?E1 @ pre2 @ ?E2"
    using t1 t2 by simp
  have b: "token_spans ?s2 n1 = Some (py_len (cls_token tk # pre1), py_len ((cls_token tk # pre1) @ ?E1))"
    using ne c1 t1 by (simp add: c2)
  have c: "token_spans ?s2 n2 = Some (py_len ((cls_token tk # pre1) @ ?E1 @ pre2),
             py_len ((cls_token tk # pre1) @ ?E1 @ pre2 @ ?E2))"
    using t1 a by (simp add: c2)
  show ?thesis
    unfolding es using a b c by blast
qed

lemma token_range_shape:
  "\<exists>A B. final_tokens tk um ex = A @ (markers um n @ span_tokens tk ex n @ markers um n) @ B
       \<and> A \<noteq> [] \<and> B \<noteq> []
       \<and> token_range tk um ex n
           = (py_len A, py_len (A @ markers um n @ span_tokens tk ex n @ markers um n))"
proof -
  obtain n1 n2 where ord: "span_order ex = [n1, n2]" and n: "n = n1 \<or> n = n2"
    using span_order_cases [of ex] by (cases n) auto
  let ?E1 = "markers um n1 @ span_tokens tk ex n1 @ markers um n1"
  let ?E2 = "markers um n2 @ span_tokens tk ex n2 @ markers um n2"
  let ?rest = "tokenize tk (py_slice_from (ex_text ex) (cur (encode_state tk um ex))) @ [sep_token tk]"
  obtain pre1 pre2 where
    t: "tokens (encode_state tk um ex) = (cls_token tk # pre1) @ ?E1 @ pre2 @ ?E2"
    and c1: "token_range tk um ex n1 = (py_len (cls_token tk # pre1), py_len ((cls_token tk # pre1) @ ?E1))"
    and c2: "token_range tk um ex n2 = (py_len ((cls_token tk # pre1) @ ?E1 @ pre2),
                 py_len (((cls_token tk # pre1) @ ?E1 @ pre2) @ ?E2))"
    using encode_state_shape [OF ord, of tk um] by (auto simp: token_range_def)
  have f1: "final_tokens tk um ex = (cls_token tk # pre1) @ ?E1 @ (pre2 @ ?E2 @ ?rest)"
    by (simp add: final_tokens_def Let_def t)
  have f2: "final_tokens tk um ex = ((cls_token tk # pre1) @ ?E1 @ pre2) @ ?E2 @ ?rest"
    by (simp add: final_tokens_def Let_def t)
  from n show ?thesis
  proof
    assume "n = n1"
    with f1 c1 show ?thesis
      by (intro exI [of _ "cls_token tk # pre1"] exI [of _ "pre2 @ ?E2 @ ?rest"]) simp
  next
    assume "n = n2"
    with f2 c2 show ?thesis
      by (intro exI [of _ "(cls_token tk # pre1) @ ?E1 @ pre2"] exI [of _ "?rest"]) simp
  qed
qed

lemma token_range_le: "fst (token_range tk um ex n) \<le> snd (token_range tk um ex n)"
  using token_range_shape [of tk um ex n] by (auto simp: py_len_def)

lemma token_range_precedes:
  assumes "span_order ex = [n1, n2]"
  shows "snd (token_range tk um ex n1) \<le> fst (token_range tk um ex n2)"
  using encode_state_shape [OF assms, of tk um] by (auto simp: token_range_def py_len_def)

lemma token_spans_dom: "token_spans (encode_state tk um ex) n \<noteq> None"
  using span_order_cases [of ex] encode_state_shape [of ex _ _ tk um]
  by (cases n) fastforce+

lemma surrounded:
  assumes "toks = A @ ([m] @ T @ [m]) @ B" and "s = py_len A" and "e = py_len (A @ [m] @ T @ [m])"
  shows "toks ! nat s = m \<and> toks ! nat (e - 1) = m \<and> py_slice toks (s + 1) (e - 1) = T
       \<and> e = s + py_len T + 2"
proof -
  have s1: "s + 1 = py_len (A @ [m])" and e1: "e - 1 = py_len ((A @ [m]) @ T)"
    using assms by (simp_all add: py_len_def)
  have t: "toks = (A @ [m]) @ T @ ([m] @ B)"
    using assms by simp
  have "py_slice toks (s + 1) (e - 1) = T"
    unfolding s1 e1 t by (rule py_slice_middle)
  moreover have "toks ! nat s = m"
    using assms by (simp add: py_len_def)
  moreover have "toks ! nat (e - 1) = m"
  proof -
    have "nat (e - 1) = length (A @ [m] @ T)"
      using assms(3) by (simp add: py_len_def)
    moreover have "toks = (A @ [m] @ T) @ m # B"
      using assms(1) by simp
    ultimately show ?thesis
      by (simp only: nth_append_length)
  qed
  moreover have "e = s + py_len T + 2"
    using assms by (simp add: py_len_def)
  ultimately show ?thesis by simp
qed

lemma john_example_eq:
  "john_example =
     \<lparr> ex_id = ''train-0'', ex_text = ''John lives in Paris'',
       span_a = (0, 5), span_b = (14, 20), type_a = ''PERSON'', type_b = ''CITY'',
       label = ''lives_in'' \<rparr>"
  unfolding john_example_def by (simp add: john_create_example digit_char_def)

lemma word_tokenizer_simps:
  "cls_token word_tokenizer = ''[CLS]''"
  "sep_token word_tokenizer = ''[SEP]''"
  "tokenize word_tokenizer txt = split_acc [] txt"
  by (simp_all add: word_tokenizer_def tokenize_def)

lemma split_words:
  "split_acc [] [] = []"
  "split_acc [] '' '' = []"
  "split_acc [] ''John '' = [''John'']"
  "split_acc [] ''lives in '' = [''lives'', ''in'']"
  "split_acc [] ''Paris'' = [''Paris'']"
  "split_acc [] ''New York City '' = [''New'', ''York'', ''City'']"
  "split_acc [] ''New York '' = [''New'', ''York'']"
  by (simp_all add: py_isspace_def)

lemma john_text_slices:
  "py_slice ''John lives in Paris'' 0 0 = []"
  "py_slice ''John lives in Paris'' 0 5 = ''John ''"
  "py_slice ''John lives in Paris'' 5 14 = ''lives in ''"
  "py_slice ''John lives in Paris'' 14 20 = ''Paris''"
  "py_slice_from ''John lives in Paris'' 20 = []"
  by (simp_all add: py_slice_def py_slice_from_def slice_bound_def py_len_def)

lemma tie_text_slices:
  "py_slice ''New York City  New York City'' 0 0 = []"
  "py_slice ''New York City  New York City'' 0 14 = ''New York City ''"
  "py_slice ''New York City  New York City'' 14 15 = '' ''"
  "py_slice ''New York City  New York City'' 15 24 = ''New York ''"
  by (simp_all add: py_slice_def slice_bound_def py_len_def)

lemma john_encode_state:
  "encode_state word_tokenizer True john_example =
     \<lparr> tokens = [''[CLS]'', ''[HEAD]'', ''John'', ''[HEAD]'', ''lives'', ''in'',
                  ''[TAIL]'', ''Paris'', ''[TAIL]''],
       cur = 20, token_spans = [Span_a \<mapsto> (1, 4), Span_b \<mapsto> (6, 9)] \<rparr>"
  by (simp add: john_example_eq encode_state_def span_order_def span_step_def get_span_def
      word_tokenizer_simps john_text_slices split_words marker_def HEAD_TOKEN_def TAIL_TOKEN_def
      py_len_def Let_def del: split_acc.simps)

lemma john_final_tokens:
  "final_tokens word_tokenizer True john_example =
     [''[CLS]'', ''[HEAD]'', ''John'', ''[HEAD]'', ''lives'', ''in'',
      ''[TAIL]'', ''Paris'', ''[TAIL]'', ''[SEP]'']"
  unfolding final_tokens_def Let_def john_encode_state
  by (simp add: john_example_eq word_tokenizer_simps john_text_slices split_words
      del: split_acc.simps)

lemma john_token_range:
  "token_range word_tokenizer True john_example Span_a = (1, 4)"
  "token_range word_tokenizer True john_example Span_b = (6, 9)"
  by (simp_all add: token_range_def john_encode_state)

section \<open>Properties of the feature encoder\<close>

text \<open>
  Claim C9. With \<open>use_marker_token\<close> true, the final token sequence has a marker token
  at the recorded start of each entity's token range, immediately followed by the subword
  tokens of the span text, immediately followed by a second marker token; the marker is
  \<open>HEAD_TOKEN\<close> for \<open>span_a\<close> and \<open>TAIL_TOKEN\<close> for \<open>span_b\<close>.
\<close>

theorem C9_markers_surround:
  assumes "toks = final_tokens tk True ex"
    and "(s, e) = token_range tk True ex n"
    and "m = (case n of Span_a \<Rightarrow> HEAD_TOKEN | Span_b \<Rightarrow> TAIL_TOKEN)"
  shows "0 < s \<and> e < py_len toks
       \<and> toks ! nat s = m
       \<and> py_slice toks (s + 1) (e - 1)
           = tokenize tk (py_slice (ex_text ex) (fst (get_span ex n)) (snd (get_span ex n)))
       \<and> toks ! nat (e - 1) = m
       \<and> s + 1 \<le> e - 1"
proof -
  have mk: "markers True n = [m]"
    using assms(3) by (cases n) (simp_all add: markers_def marker_def)
  obtain A B where f: "toks = A @ ([m] @ span_tokens tk ex n @ [m]) @ B"
    and ne: "A \<noteq> []" "B \<noteq> []"
    and r: "token_range tk True ex n = (py_len A, py_len (A @ [m] @ span_tokens tk ex n @ [m]))"
    using token_range_shape [of tk True ex n] unfolding mk assms(1) by auto
  have s: "s = py_len A" and e: "e = py_len (A @ [m] @ span_tokens tk ex n @ [m])"
    using r assms(2) by simp_all
  have "0 < s" using ne s by (simp add: py_len_def)
  moreover have "e < py_len toks" using ne e f by (simp add: py_len_def)
  moreover have "s + 1 \<le> e - 1" using s e by (simp add: py_len_def)
  moreover note surrounded [OF f s e, unfolded span_tokens_def]
  ultimately show ?thesis by blast
qed

theorem C9_markers_surround_witness:
  "final_tokens word_tokenizer True john_example
     = [''[CLS]'', ''[HEAD]'', ''John'', ''[HEAD]'', ''lives'', ''in'',
        ''[TAIL]'', ''Paris'', ''[TAIL]'', ''[SEP]'']
   \<and> token_range word_tokenizer True john_example Span_a = (1, 4)
   \<and> final_tokens word_tokenizer True john_example ! nat 1 = HEAD_TOKEN
   \<and> py_slice (final_tokens word_tokenizer True john_example) (1 + 1) (4 - 1) = [''John'']
   \<and> final_tokens word_tokenizer True john_example ! nat (4 - 1) = HEAD_TOKEN"
proof -
  have t: "tokenize word_tokenizer (py_slice (ex_text john_example)
              (fst (get_span john_example Span_a)) (snd (get_span john_example Span_a)))
           = [''John'']"
    by (simp add: john_example_eq get_span_def word_tokenizer_simps john_text_slices
        split_words del: split_acc.simps)
  have r: "(1, 4) = token_range word_tokenizer True john_example Span_a"
    by (simp add: john_token_range)
  show ?thesis
    using C9_markers_surround [OF refl r refl] t
    by (simp add: john_final_tokens john_token_range HEAD_TOKEN_def)
qed

section \<open>Position ids, the loop over the examples and the dictionaries\<close>

lemma py_slice_to_nat: "0 \<le> m \<Longrightarrow> py_slice_to xs m = take (nat m) xs"
  by (auto simp: py_slice_to_def slice_bound_def py_len_def min_def)

lemma position_ids_eq:
  assumes "0 \<le> m" and "s \<le> e"
  shows "position_ids (s, e) m
           = take (nat m) [s ..e - 1] @ replicate (nat m - length (take (nat m) [s ..e - 1])) (- 1)"
    and "py_len (position_ids (s, e) m) = m"
proof -
  have l: "length [s ..e - 1] = nat (e - s)" by simp
  have r: "nat (m - e + s) = nat m - length (take (nat m) [s ..e - 1])"
    using assms by (simp add: l min_def) linarith
  show "position_ids (s, e) m
           = take (nat m) [s ..e - 1] @ replicate (nat m - length (take (nat m) [s ..e - 1])) (- 1)"
    using assms(1) by (simp add: position_ids_def py_range_def py_repeat_def py_slice_to_nat r)
  then show "py_len (position_ids (s, e) m) = m"
    using assms by (simp add: py_len_def l min_def)
qed

lemma convert_example_Inr:
  assumes "convert_example label_list tk m ut um ex = Inr f"
  shows "entity_position_ids f
           = [position_ids (token_range tk um ex Span_a) m, position_ids (token_range tk um ex Span_b) m]"
    and "lookup (label_map label_list) (label ex) = Inr (label_id f)"
    and "make_entity_ids ut ex = Inr (entity_ids f)"
    and "word_ids f = convert_tokens_to_ids tk (final_tokens tk um ex)"
  using assms by (auto simp: convert_example_def Let_def split: sum.splits)

lemma convert_all_Inr:
  assumes "convert_all label_list tk m ut um examples = Inr fs"
  shows "length fs = length examples
       \<and> (\<forall>j < length examples. convert_example label_list tk m ut um (examples ! j) = Inr (fs ! j))"
  using assms
proof (induction examples arbitrary: fs)
  case Nil
  then show ?case by simp
next
  case (Cons ex examples)
  from Cons.prems obtain f fs' where f: "convert_example label_list tk m ut um ex = Inr f"
    and fs': "convert_all label_list tk m ut um examples = Inr fs'" and fs: "fs = f # fs'"
    by (auto split: sum.splits)
  from Cons.IH [OF fs'] f fs show ?case
    by (auto simp: nth_Cons split: nat.splits)
qed

lemma convert_all_Inl:
  assumes "ex \<in> set examples" and "convert_example label_list tk m ut um ex = Inl err"
  shows "\<exists>err'. convert_all label_list tk m ut um examples = Inl err'"
  using assms by (induction examples) (auto split: sum.splits)

lemma convert_all_total:
  assumes "\<forall>ex \<in> set examples. \<exists>f. convert_example label_list tk m ut um ex = Inr f"
  shows "\<exists>fs. convert_all label_list tk m ut um examples = Inr fs"
  using assms by (induction examples) (auto split: sum.splits)

lemma label_map_snoc:
  "label_map (ls @ [l]) = (label_map ls)(l \<mapsto> int (length ls))"
  by (simp add: label_map_def dict_of_def enumerate_append_eq)

lemma label_map_index:
  "label_map ls l = Some i \<Longrightarrow>
     0 \<le> i \<and> nat i < length ls \<and> ls ! nat i = l
     \<and> (\<forall>j < length ls. ls ! j = l \<longrightarrow> j \<le> nat i)"
proof (induction ls arbitrary: i rule: rev_induct)
  case Nil
  then show ?case by (simp add: label_map_def dict_of_def)
next
  case (snoc x xs)
  show ?case
  proof (cases "x = l")
    case True
    with snoc.prems have "i = int (length xs)" by (simp add: label_map_snoc)
    with True show ?thesis by auto
  next
    case False
    with snoc.prems have "label_map xs l = Some i" by (simp add: label_map_snoc)
    from snoc.IH [OF this] False show ?thesis
      by (auto simp: nth_append less_Suc_eq)
  qed
qed

lemma label_map_dom: "(label_map ls l = None) = (l \<notin> set ls)"
proof (induction ls rule: rev_induct)
  case Nil
  show ?case by (simp add: label_map_def dict_of_def)
next
  case (snoc x xs)
  then show ?case by (simp add: label_map_snoc)
qed

lemma dict_of_dom: "(fold (\<lambda>(k, v) m. m(k \<mapsto> v)) kvs m0 k = None) = (k \<notin> fst ` set kvs \<and> m0 k = None)"
  by (induction kvs arbitrary: m0) (auto split: if_splits)

lemma type_map_dom: "(type_map t = None) = (t \<notin> set ENTITY_TYPES)"
proof -
  have "map fst (map (\<lambda>(i, t). (t, int i + 1)) (enumerate 0 ENTITY_TYPES))
          = map snd (enumerate 0 ENTITY_TYPES)"
    by (simp add: case_prod_unfold comp_def)
  then have "fst ` set (map (\<lambda>(i, t). (t, int i + 1)) (enumerate 0 ENTITY_TYPES))
          = set ENTITY_TYPES"
    by (metis map_snd_enumerate set_map)
  then show ?thesis
    by (simp add: type_map_def dict_of_def dict_of_dom)
qed

section \<open>The order in which the encoder takes the spans\<close>

text \<open>
  Claim C4. The claim orders the two spans by increasing start offset, with \<open>span_a\<close>
  first on equal starts. The test of the encoder compares the end offsets (index 1) with a
  strict \<open><\<close>: with equal starts, and with a later start of \<open>span_b\<close>, it can process
  \<open>span_b\<close> first.
\<close>

theorem C4_counterexample:
  "fst (span_a same_start_example) = fst (span_b same_start_example)
   \<and> span_order same_start_example = [Span_b, Span_a]
   \<and> fst (span_a nested_example) < fst (span_b nested_example)
   \<and> span_order nested_example = [Span_b, Span_a]"
  by (simp add: same_start_example_def nested_example_def span_order_def)

text \<open>
  Claim C4, amended. The encoder processes the two spans in order of increasing end
  offset, \<open>span_b\<close> before \<open>span_a\<close> when the end offsets are equal, and the span
  processed first gets the earlier token range. For an example whose spans are non-empty
  and do not overlap, the start offsets differ and this is the order of increasing start
  offset.
\<close>

theorem C4_span_order:
  "(snd (span_a ex) < snd (span_b ex) \<longrightarrow> span_order ex = [Span_a, Span_b])
   \<and> (snd (span_b ex) \<le> snd (span_a ex) \<longrightarrow> span_order ex = [Span_b, Span_a])
   \<and> (\<forall>n1 n2. span_order ex = [n1, n2] \<longrightarrow>
          snd (token_range tk um ex n1) \<le> fst (token_range tk um ex n2))
   \<and> (spans_valid ex \<longrightarrow>
          fst (span_a ex) \<noteq> fst (span_b ex)
          \<and> (span_order ex = [Span_a, Span_b]) = (fst (span_a ex) < fst (span_b ex)))"
proof -
  have a: "snd (span_a ex) < snd (span_b ex) \<longrightarrow> span_order ex = [Span_a, Span_b]"
    and b: "snd (span_b ex) \<le> snd (span_a ex) \<longrightarrow> span_order ex = [Span_b, Span_a]"
    by (simp_all add: span_order_def)
  have c: "\<forall>n1 n2. span_order ex = [n1, n2] \<longrightarrow>
          snd (token_range tk um ex n1) \<le> fst (token_range tk um ex n2)"
    using token_range_precedes by blast
  have d: "spans_valid ex \<longrightarrow>
          fst (span_a ex) \<noteq> fst (span_b ex)
          \<and> (span_order ex = [Span_a, Span_b]) = (fst (span_a ex) < fst (span_b ex))"
    by (auto simp: spans_valid_def span_order_def)
  from a b c d show ?thesis by blast
qed

lemma tie_example_built_eq:
  "tie_example_built =
     \<lparr> ex_id = ''train-1'', ex_text = ''New York City  New York City'',
       span_a = (15, 24), span_b = (0, 14), type_a = ''STATE_OR_PROVINCE'', type_b = ''CITY'',
       label = ''no_relation'' \<rparr>"
  unfolding tie_example_built_def by (simp add: tie_create_example digit_char_def)

lemma tie_token_range:
  "token_range word_tokenizer False tie_example_built Span_b = (1, 4)"
  "token_range word_tokenizer False tie_example_built Span_a = (4, 6)"
  by (simp_all add: token_range_def tie_example_built_eq encode_state_def span_order_def
      span_step_def get_span_def word_tokenizer_simps tie_text_slices split_words
      py_len_def Let_def del: split_acc.simps)

theorem C4_span_order_witness:
  "(snd (span_a john_example) < snd (span_b john_example)
      \<and> span_order john_example = [Span_a, Span_b]
      \<and> spans_valid john_example
      \<and> fst (span_a john_example) < fst (span_b john_example)
      \<and> snd (token_range word_tokenizer True john_example Span_a)
           \<le> fst (token_range word_tokenizer True john_example Span_b))
   \<and> (snd (span_b tie_example_built) \<le> snd (span_a tie_example_built)
      \<and> span_order tie_example_built = [Span_b, Span_a]
      \<and> spans_valid tie_example_built
      \<and> \<not> fst (span_a tie_example_built) < fst (span_b tie_example_built)
      \<and> snd (token_range word_tokenizer False tie_example_built Span_b)
           \<le> fst (token_range word_tokenizer False tie_example_built Span_a))"
proof -
  have j: "snd (span_a john_example) < snd (span_b john_example)" "spans_valid john_example"
    by (simp_all add: john_example_eq spans_valid_def)
  have t: "snd (span_b tie_example_built) \<le> snd (span_a tie_example_built)"
      "spans_valid tie_example_built"
    by (simp_all add: tie_example_built_eq spans_valid_def)
  have jo: "span_order john_example = [Span_a, Span_b]"
    using C4_span_order [of john_example word_tokenizer True] j by blast
  have t_o: "span_order tie_example_built = [Span_b, Span_a]"
    using C4_span_order [of tie_example_built word_tokenizer False] t by blast
  show ?thesis
    using C4_span_order [of john_example word_tokenizer True]
      C4_span_order [of tie_example_built word_tokenizer False] j t jo t_o
    by (simp add: john_token_range tie_token_range)
qed

section \<open>Properties of the label vocabulary\<close>

text \<open>
  The order of strings is by code point, a proper prefix first, as Python compares
  \<open>str\<close> values.
\<close>

lemma string_order_examples:
  "(''Z'' :: string) < ''a''" "(''org'' :: string) < ''org:founded''"
  "(''per:title'' :: string) < ''per:wife''"
  by (simp_all add: less_char_def)

lemma fold_insert_image: "fold (\<lambda>x A. insert (f x) A) xs A = f ` set xs \<union> A"
  by (induction xs arbitrary: A) auto

lemma create_examples_labels: "map label (create_examples data set_type) = map relation data"
proof -
  have "map label (create_examples data set_type) = map (relation \<circ> snd) (enumerate 0 data)"
    by (simp add: create_examples_def create_example_def Let_def case_prod_unfold comp_def)
  also have "\<dots> = map relation (map snd (enumerate 0 data))"
    by (simp only: map_map)
  finally show ?thesis by simp
qed

lemma get_label_list_eq:
  "get_label_list data
     = ''no_relation'' # sorted_list_of_set (label ` set (get_train_examples data) - {''no_relation''})"
  by (simp add: get_label_list_def Let_def fold_insert_image)

text \<open>
  Claim C5. The label vocabulary has \<open>no_relation\<close> at index 0; the entries after it
  are exactly the labels of the training examples other than \<open>no_relation\<close> (the
  relations of the training records), without repetition and in the lexicographic order
  of strings.
\<close>

theorem C5_label_list:
  "get_label_list data ! 0 = ''no_relation''
   \<and> set (tl (get_label_list data)) = label ` set (get_train_examples data) - {''no_relation''}
   \<and> label ` set (get_train_examples data) = relation ` set data
   \<and> distinct (tl (get_label_list data))
   \<and> sorted (tl (get_label_list data))"
proof -
  have "label ` set (get_train_examples data) = set (map label (create_examples data ''train''))"
    by (simp add: get_train_examples_def)
  then have "label ` set (get_train_examples data) = relation ` set data"
    by (simp add: create_examples_labels)
  then show ?thesis
    by (simp add: get_label_list_eq)
qed

section \<open>The encoder on the concrete inputs\<close>

lemma label_map_john: "label_map john_labels = [''no_relation'' \<mapsto> 0, ''lives_in'' \<mapsto> 1]"
  by (simp add: label_map_def dict_of_def john_labels_def)

lemma john_features:
  "convert_example john_labels word_tokenizer m False True john_example =
     Inr \<lparr> word_ids = [5, 6, 4, 6, 5, 2, 6, 5, 6, 5],
           word_segment_ids = [0, 0, 0, 0, 0, 0, 0, 0, 0, 0],
           word_attention_mask = [1, 1, 1, 1, 1, 1, 1, 1, 1, 1],
           entity_ids = [1, 1],
           entity_position_ids = [position_ids (1, 4) m, position_ids (6, 9) m],
           entity_segment_ids = [0, 0],
           entity_attention_mask = [1, 1],
           label_id = 1 \<rparr>"
proof -
  have ids: "map (\<lambda>n. position_ids (token_range word_tokenizer True john_example n) m)
               [Span_a, Span_b] = [position_ids (1, 4) m, position_ids (6, 9) m]"
    by (simp add: john_token_range)
  have l: "lookup (label_map john_labels) (label john_example) = Inr 1"
    by (simp add: label_map_john lookup_def john_example_eq)
  have w: "convert_tokens_to_ids word_tokenizer
             [''[CLS]'', ''[HEAD]'', ''John'', ''[HEAD]'', ''lives'', ''in'',
              ''[TAIL]'', ''Paris'', ''[TAIL]'', ''[SEP]'']
           = [5, 6, 4, 6, 5, 2, 6, 5, 6, 5]"
    by (simp add: word_tokenizer_def py_len_def)
  show ?thesis
    unfolding convert_example_def Let_def john_final_tokens ids l w
    by (simp add: make_entity_ids_def py_len_def py_repeat_def numeral_eq_Suc)
qed

lemma john_position_ids:
  "position_ids (1, 4) 2 = [1, 2]"
  "position_ids (6, 9) 2 = [6, 7]"
  "position_ids (1, 4) 4 = [1, 2, 3, - 1]"
  "position_ids (6, 9) 4 = [6, 7, 8, - 1]"
proof -
  have u: "[1 ..(3::int)] = [1, 2, 3]" "[6 ..(8::int)] = [6, 7, 8]"
    by (simp_all add: upto.simps)
  show "position_ids (1, 4) 2 = [1, 2]" "position_ids (6, 9) 2 = [6, 7]"
    "position_ids (1, 4) 4 = [1, 2, 3, - 1]" "position_ids (6, 9) 4 = [6, 7, 8, - 1]"
    by (simp_all add: position_ids_def py_range_def py_slice_to_def slice_bound_def
        py_repeat_def py_len_def u)
qed

text \<open>
  Claim C6. For every record the encoder returns and each entity (index 0 for \<open>span_a\<close>,
  1 for \<open>span_b\<close>), the position ids have length \<open>max_mention_length\<close> and are the
  consecutive indices of the entity's token range, cut to \<open>max_mention_length\<close> entries,
  followed by \<open>-1\<close> up to that length; a token range longer than \<open>max_mention_length\<close>
  gets no padding. A length is not negative, so \<open>max_mention_length\<close> is taken from 0 on.
\<close>

theorem C6_position_ids:
  assumes "convert_examples_to_features examples label_list tk max_mention_length
             use_entity_type_token use_marker_token = Inr fs"
    and "0 \<le> max_mention_length"
    and "j < length fs"
    and "(i, n) = (0, Span_a) \<or> (i, n) = (1, Span_b)"
    and "(s, e) = token_range tk use_marker_token (examples ! j) n"
  shows "length (entity_position_ids (fs ! j)) = 2
       \<and> py_len (entity_position_ids (fs ! j) ! i) = max_mention_length
       \<and> entity_position_ids (fs ! j) ! i
           = take (nat max_mention_length) [s ..e - 1]
             @ replicate (nat max_mention_length - length (take (nat max_mention_length) [s ..e - 1])) (- 1)"
proof -
  let ?ex = "examples ! j"
  have ca: "convert_all label_list tk max_mention_length use_entity_type_token use_marker_token
              examples = Inr fs"
    using assms(1) by (simp add: convert_examples_to_features_def)
  from convert_all_Inr [OF ca] assms(3)
  have ce: "convert_example label_list tk max_mention_length use_entity_type_token
              use_marker_token ?ex = Inr (fs ! j)"
    by simp
  have ids: "entity_position_ids (fs ! j)
       = [position_ids (token_range tk use_marker_token ?ex Span_a) max_mention_length,
          position_ids (token_range tk use_marker_token ?ex Span_b) max_mention_length]"
    by (rule convert_example_Inr(1) [OF ce])
  have i: "entity_position_ids (fs ! j) ! i = position_ids (s, e) max_mention_length"
    using assms(4,5) ids by auto
  have le: "s \<le> e"
    using token_range_le [of tk use_marker_token ?ex n] assms(5) [symmetric] by simp
  show ?thesis
    using position_ids_eq [OF assms(2) le] i ids by simp
qed

lemma john_convert:
  "convert_examples_to_features [john_example] john_labels word_tokenizer 2 False True =
     Inr [\<lparr> word_ids = [5, 6, 4, 6, 5, 2, 6, 5, 6, 5],
           word_segment_ids = [0, 0, 0, 0, 0, 0, 0, 0, 0, 0],
           word_attention_mask = [1, 1, 1, 1, 1, 1, 1, 1, 1, 1],
           entity_ids = [1, 1],
           entity_position_ids = [[1, 2], [6, 7]],
           entity_segment_ids = [0, 0],
           entity_attention_mask = [1, 1],
           label_id = 1 \<rparr>]"
  by (simp add: convert_examples_to_features_def john_features john_position_ids)

theorem C6_position_ids_witness:
  "(0::int) \<le> 2 \<and> (0::nat) < length [john_example]
   \<and> token_range word_tokenizer True john_example Span_a = (1, 4)
   \<and> (\<exists>fs. convert_examples_to_features [john_example] john_labels word_tokenizer 2 False True
               = Inr fs
          \<and> entity_position_ids (fs ! 0) ! 0 = [1, 2]
          \<and> py_len (entity_position_ids (fs ! 0) ! 0) = 2)"
proof -
  have r: "(1, 4) = token_range word_tokenizer True ([john_example] ! 0) Span_a"
    by (simp add: john_token_range)
  have t: "take 2 [1 ..(3::int)] = [1, 2]"
    by (simp add: upto.simps)
  show ?thesis
    using C6_position_ids [OF john_convert _ _ _ r, of 0] t
    by (simp add: john_convert john_token_range)
qed

section \<open>Errors and results of the encoder\<close>

lemma convert_example_absent:
  assumes "label ex \<notin> set label_list"
  shows "\<exists>err. convert_example label_list tk m ut um ex = Inl err"
proof -
  have "lookup (label_map label_list) (label ex) = Inl (KeyError (label ex))"
    using assms label_map_dom [of label_list "label ex"] by (simp add: lookup_def)
  then show ?thesis
    by (simp add: convert_example_def Let_def split: sum.splits)
qed

lemma convert_example_present:
  assumes "label ex \<in> set label_list"
    and "ut \<longrightarrow> type_a ex \<in> set ENTITY_TYPES \<and> type_b ex \<in> set ENTITY_TYPES"
  shows "\<exists>f. convert_example label_list tk m ut um ex = Inr f"
proof -
  obtain l where l: "lookup (label_map label_list) (label ex) = Inr l"
    using assms(1) label_map_dom [of label_list "label ex"]
    by (cases "label_map label_list (label ex)") (auto simp: lookup_def)
  have "\<exists>eids. make_entity_ids ut ex = Inr eids"
  proof (cases ut)
    case True
    with assms(2) obtain a b where "type_map (type_a ex) = Some a" "type_map (type_b ex) = Some b"
      using type_map_dom [of "type_a ex"] type_map_dom [of "type_b ex"] by auto
    with True show ?thesis by (simp add: make_entity_ids_def lookup_def)
  next
    case False
    then show ?thesis by (simp add: make_entity_ids_def)
  qed
  with l show ?thesis
    by (auto simp: convert_example_def Let_def)
qed

text \<open>
  Claim C7. The claim promises one record per example whenever every label is in the
  vocabulary. With \<open>use_entity_type_token\<close> true the encoder also looks the two entity
  types up in \<open>type_map\<close>, and a type outside \<open>ENTITY_TYPES\<close> raises \<open>KeyError\<close> although
  the label is present.
\<close>

theorem C7_counterexample:
  "label unknown_type_example \<in> set john_labels
   \<and> convert_examples_to_features [unknown_type_example] john_labels word_tokenizer 2 True True
       = Inl (KeyError ''ANIMAL'')"
proof -
  have "type_map ''ANIMAL'' = None"
    by (simp add: type_map_dom ENTITY_TYPES_def)
  then have "make_entity_ids True unknown_type_example = Inl (KeyError ''ANIMAL'')"
    by (simp add: make_entity_ids_def lookup_def unknown_type_example_def)
  then show ?thesis
    by (simp add: convert_examples_to_features_def convert_example_def Let_def
        unknown_type_example_def john_example_eq john_labels_def)
qed

text \<open>
  Claim C7, amended. The encoder raises an error when some example has a label absent
  from the vocabulary. When every label is present and, with \<open>use_entity_type_token\<close>
  true, every \<open>type_a\<close> and \<open>type_b\<close> is in \<open>ENTITY_TYPES\<close>, it returns one record per
  example, in input order, whose label is the index of the example's label in the
  vocabulary (the last such index, should the vocabulary repeat a label).
\<close>

theorem C7_errors_and_results:
  "((\<exists>ex \<in> set examples. label ex \<notin> set label_list) \<longrightarrow>
      (\<exists>err. convert_examples_to_features examples label_list tk m ut um = Inl err))
   \<and> ((\<forall>ex \<in> set examples. label ex \<in> set label_list
          \<and> (ut \<longrightarrow> type_a ex \<in> set ENTITY_TYPES \<and> type_b ex \<in> set ENTITY_TYPES)) \<longrightarrow>
      (\<exists>fs. convert_examples_to_features examples label_list tk m ut um = Inr fs
         \<and> length fs = length examples
         \<and> (\<forall>j < length examples.
               convert_example label_list tk m ut um (examples ! j) = Inr (fs ! j)
               \<and> 0 \<le> label_id (fs ! j) \<and> nat (label_id (fs ! j)) < length label_list
               \<and> label_list ! nat (label_id (fs ! j)) = label (examples ! j)
               \<and> (\<forall>k < length label_list.
                     label_list ! k = label (examples ! j) \<longrightarrow> k \<le> nat (label_id (fs ! j))))))"
proof (intro conjI impI)
  assume "\<exists>ex \<in> set examples. label ex \<notin> set label_list"
  then obtain ex where ex: "ex \<in> set examples" "label ex \<notin> set label_list" by blast
  obtain err where "convert_example label_list tk m ut um ex = Inl err"
    using convert_example_absent [OF ex(2)] by blast
  from convert_all_Inl [OF ex(1) this]
  show "\<exists>err. convert_examples_to_features examples label_list tk m ut um = Inl err"
    by (simp add: convert_examples_to_features_def)
next
  assume a: "\<forall>ex \<in> set examples. label ex \<in> set label_list
          \<and> (ut \<longrightarrow> type_a ex \<in> set ENTITY_TYPES \<and> type_b ex \<in> set ENTITY_TYPES)"
  then have "\<forall>ex \<in> set examples. \<exists>f. convert_example label_list tk m ut um ex = Inr f"
    using convert_example_present by blast
  from convert_all_total [OF this]
  obtain fs where fs: "convert_all label_list tk m ut um examples = Inr fs" by blast
  note r = convert_all_Inr [OF fs]
  have "0 \<le> label_id (fs ! j) \<and> nat (label_id (fs ! j)) < length label_list
        \<and> label_list ! nat (label_id (fs ! j)) = label (examples ! j)
        \<and> (\<forall>k < length label_list.
              label_list ! k = label (examples ! j) \<longrightarrow> k \<le> nat (label_id (fs ! j)))"
    if j: "j < length examples" for j
  proof -
    have "convert_example label_list tk m ut um (examples ! j) = Inr (fs ! j)"
      using r j by blast
    from convert_example_Inr(2) [OF this]
    have "label_map label_list (label (examples ! j)) = Some (label_id (fs ! j))"
      by (auto simp: lookup_def split: option.splits)
    from label_map_index [OF this] show ?thesis .
  qed
  with r fs
  show "\<exists>fs. convert_examples_to_features examples label_list tk m ut um = Inr fs
         \<and> length fs = length examples
         \<and> (\<forall>j < length examples.
               convert_example label_list tk m ut um (examples ! j) = Inr (fs ! j)
               \<and> 0 \<le> label_id (fs ! j) \<and> nat (label_id (fs ! j)) < length label_list
               \<and> label_list ! nat (label_id (fs ! j)) = label (examples ! j)
               \<and> (\<forall>k < length label_list.
                     label_list ! k = label (examples ! j) \<longrightarrow> k \<le> nat (label_id (fs ! j))))"
    by (simp add: convert_examples_to_features_def)
qed

theorem C7_errors_and_results_witness:
  "(label john_example \<notin> set [''no_relation'']
      \<and> (\<exists>err. convert_examples_to_features [john_example] [''no_relation''] word_tokenizer 2
                  False True = Inl err))
   \<and> (label john_example \<in> set john_labels
      \<and> (\<exists>fs. convert_examples_to_features [john_example] john_labels word_tokenizer 2
                 False True = Inr fs
            \<and> length fs = 1 \<and> label_id (fs ! 0) = 1 \<and> john_labels ! 1 = label john_example))"
proof -
  have a: "\<exists>ex \<in> set [john_example]. label ex \<notin> set [''no_relation'']"
    by (simp add: john_example_eq)
  have b: "\<forall>ex \<in> set [john_example]. label ex \<in> set john_labels
          \<and> (False \<longrightarrow> type_a ex \<in> set ENTITY_TYPES \<and> type_b ex \<in> set ENTITY_TYPES)"
    by (simp add: john_example_eq john_labels_def)
  have c: "john_labels ! 1 = label john_example"
    by (simp add: john_example_eq john_labels_def)
  from C7_errors_and_results [of "[john_example]" "[''no_relation'']" word_tokenizer 2 False True] a
  have 1: "\<exists>err. convert_examples_to_features [john_example] [''no_relation''] word_tokenizer 2
                  False True = Inl err"
    by blast
  from C7_errors_and_results [of "[john_example]" john_labels word_tokenizer 2 False True] b
  obtain fs where "convert_examples_to_features [john_example] john_labels word_tokenizer 2
                 False True = Inr fs" "length fs = 1"
    by auto
  then have 2: "\<exists>fs. convert_examples_to_features [john_example] john_labels word_tokenizer 2
                 False True = Inr fs
            \<and> length fs = 1 \<and> label_id (fs ! 0) = 1 \<and> john_labels ! 1 = label john_example"
    using john_convert c by auto
  from a b 1 2 show ?thesis by simp
qed

section \<open>Token ranges, markers and position ids\<close>

lemma take_upto:
  assumes "0 \<le> m" and "m < e - s"
  shows "take (nat m) [s ..e - 1] = [s ..s + m - 1]"
proof -
  have "[s ..e - 1] = [s ..s + m - 1] @ [s + m ..e - 1]"
    using assms upto_split1 [of s "s + m" "e - 1"] by simp
  moreover have "length [s ..s + m - 1] = nat m"
    using assms by simp
  ultimately show ?thesis by simp
qed

lemma position_ids_truncated:
  assumes "0 \<le> m" and "m < e - s"
  shows "position_ids (s, e) m = [s ..s + m - 1]"
proof -
  have se: "s \<le> e" using assms by linarith
  have l: "length [s ..s + m - 1] = nat m" using assms by simp
  show ?thesis
    using position_ids_eq(1) [OF assms(1) se] by (simp add: take_upto [OF assms] l)
qed

text \<open>
  Claim C10. With \<open>use_marker_token\<close> true, the claim has the recorded token range of
  each entity, and hence its position ids, include the indices of both markers. The range
  does; the position ids are the range cut to \<open>max_mention_length\<close> entries, so for
  \<open>john_example\<close> and \<open>max_mention_length = 2\<close> the range of \<open>span_a\<close> is \<open>(1, 4)\<close>,
  the closing marker is at index 3, and the position ids are \<open>[1, 2]\<close>.
\<close>

theorem C10_counterexample:
  "token_range word_tokenizer True john_example Span_a = (1, 4)
   \<and> final_tokens word_tokenizer True john_example ! nat (4 - 1) = HEAD_TOKEN
   \<and> map_sum id entity_position_ids
         (convert_example john_labels word_tokenizer 2 False True john_example)
       = Inr [[1, 2], [6, 7]]
   \<and> (4::int) - 1 \<notin> set [1, 2]"
  by (simp add: john_token_range john_final_tokens john_features john_position_ids
      HEAD_TOKEN_def)

text \<open>
  Claim C10, amended. With \<open>use_marker_token\<close> true, the token range recorded for an
  entity starts at the index of its opening marker and ends one past its closing marker,
  and the position ids of the record are computed from that range. They contain both
  marker indices when the range is no longer than \<open>max_mention_length\<close>; when it is
  longer, they are the first \<open>max_mention_length\<close> indices of the range, which leave the
  closing marker's index out and hold the opening marker's index when
  \<open>max_mention_length\<close> is at least 1.
\<close>

theorem C10_range_includes_markers:
  assumes "convert_example label_list tk m ut True ex = Inr f"
    and "toks = final_tokens tk True ex"
    and "(i, n, mk) = (0, Span_a, HEAD_TOKEN) \<or> (i, n, mk) = (1, Span_b, TAIL_TOKEN)"
    and "(s, e) = token_range tk True ex n"
  shows "toks ! nat s = mk \<and> toks ! nat (e - 1) = mk
       \<and> e = s + py_len (tokenize tk (py_slice (ex_text ex) (fst (get_span ex n))
                                         (snd (get_span ex n)))) + 2
       \<and> entity_position_ids f ! i = position_ids (s, e) m
       \<and> (e - s \<le> m \<longrightarrow>
            s \<in> set (entity_position_ids f ! i) \<and> e - 1 \<in> set (entity_position_ids f ! i))
       \<and> (0 \<le> m \<and> m < e - s \<longrightarrow>
            entity_position_ids f ! i = [s ..s + m - 1]
            \<and> e - 1 \<notin> set (entity_position_ids f ! i)
            \<and> (0 < m \<longrightarrow> s \<in> set (entity_position_ids f ! i)))"
proof -
  have mk: "markers True n = [mk]"
    using assms(3) by (auto simp: markers_def marker_def)
  obtain A B where f: "toks = A @ ([mk] @ span_tokens tk ex n @ [mk]) @ B"
    and r: "token_range tk True ex n = (py_len A, py_len (A @ [mk] @ span_tokens tk ex n @ [mk]))"
    using token_range_shape [of tk True ex n] unfolding mk assms(2) by auto
  have s: "s = py_len A" and e: "e = py_len (A @ [mk] @ span_tokens tk ex n @ [mk])"
    using r assms(4) by simp_all
  note sur = surrounded [OF f s e, unfolded span_tokens_def]
  have ids: "entity_position_ids f ! i = position_ids (s, e) m"
    using convert_example_Inr(1) [OF assms(1)] assms(3,4) by auto
  have mem: "s \<in> set (entity_position_ids f ! i) \<and> e - 1 \<in> set (entity_position_ids f ! i)"
    if le: "e - s \<le> m"
  proof -
    have se: "s + 2 \<le> e" using s e by (simp add: py_len_def)
    then have m0: "0 \<le> m" and se': "s \<le> e" using le by linarith+
    have "nat (e - s) \<le> nat m" using le by simp
    then have "take (nat m) [s ..e - 1] = [s ..e - 1]" by simp
    then have "set [s ..e - 1] \<subseteq> set (position_ids (s, e) m)"
      using position_ids_eq(1) [OF m0 se'] by simp
    then show ?thesis using se ids by auto
  qed
  have cut: "entity_position_ids f ! i = [s ..s + m - 1]
            \<and> e - 1 \<notin> set (entity_position_ids f ! i)
            \<and> (0 < m \<longrightarrow> s \<in> set (entity_position_ids f ! i))"
    if t: "0 \<le> m \<and> m < e - s"
  proof -
    have "entity_position_ids f ! i = [s ..s + m - 1]"
      using ids position_ids_truncated [of m e s] t by simp
    then show ?thesis using t by auto
  qed
  from sur ids mem cut show ?thesis by blast
qed

theorem C10_range_includes_markers_witness:
  "final_tokens word_tokenizer True john_example
     = [''[CLS]'', ''[HEAD]'', ''John'', ''[HEAD]'', ''lives'', ''in'',
        ''[TAIL]'', ''Paris'', ''[TAIL]'', ''[SEP]'']
   \<and> token_range word_tokenizer True john_example Span_b = (6, 9)
   \<and> final_tokens word_tokenizer True john_example ! nat 6 = TAIL_TOKEN
   \<and> final_tokens word_tokenizer True john_example ! nat (9 - 1) = TAIL_TOKEN
   \<and> ((9::int) - 6 \<le> 4
      \<and> (\<exists>f. convert_example john_labels word_tokenizer 4 False True john_example = Inr f
             \<and> entity_position_ids f ! 1 = [6, 7, 8, - 1]
             \<and> 6 \<in> set (entity_position_ids f ! 1) \<and> 9 - 1 \<in> set (entity_position_ids f ! 1)))
   \<and> ((0::int) \<le> 2 \<and> (2::int) < 9 - 6
      \<and> (\<exists>f. convert_example john_labels word_tokenizer 2 False True john_example = Inr f
             \<and> entity_position_ids f ! 1 = [6, 7]
             \<and> 9 - 1 \<notin> set (entity_position_ids f ! 1) \<and> 6 \<in> set (entity_position_ids f ! 1)))"
proof -
  have r: "(6, 9) = token_range word_tokenizer True john_example Span_b"
    by (simp add: john_token_range)
  have c: "(1, Span_b, TAIL_TOKEN) = (0, Span_a, HEAD_TOKEN)
           \<or> (1, Span_b, TAIL_TOKEN) = (1::nat, Span_b, TAIL_TOKEN)"
    by simp
  show ?thesis
    using C10_range_includes_markers [OF john_features refl c r, of 4]
      C10_range_includes_markers [OF john_features refl c r, of 2]
    by (simp add: john_final_tokens john_token_range john_features john_position_ids
        TAIL_TOKEN_def)
qed

end
